theory Spec2Isabelle
  imports Complex_Main "HOL-Library.AList" "HOL-Library.Extended_Nat" "HOL-Library.Multiset"
begin

section \<open>Data model\<close>

text \<open>
  A JavaScript \<open>Map\<close> is an association list in insertion order with distinct keys:
  \<open>get\<close> is \<^const>\<open>map_of\<close>, \<open>set\<close> is \<^const>\<open>AList.update\<close> (an existing key keeps its
  place, a new key goes to the end), \<open>delete\<close> is \<^const>\<open>AList.delete\<close>. A JavaScript
  \<open>Set\<close> of names is a list in insertion order.
\<close>

datatype capability_value = CapBool bool | CapString string

record node =
  node_id :: string
  node_name :: string
  node_type :: string
  node_status :: string
  capabilities :: "(string \<times> capability_value) list"
  trustScore :: int

record connection =
  conn_id :: string
  conn_sourceNode :: string
  conn_targetNode :: string

record topology =
  connections :: "(string \<times> connection) list"
  nodes :: "(string \<times> node) list"
  topologyGraph :: "(string \<times> string list) list"
  totalConnections :: nat

text \<open>
  A value used as a \<open>Map\<close> key or held in a path array: a node name or id, or one of
  JavaScript's \<open>undefined\<close> and \<open>null\<close> (\<open>Map.get\<close> answers \<open>undefined\<close> for a missing
  key, and so does an array read out of range).
\<close>

datatype js_key = JNull | JUndefined | JString string

text \<open>
  A routed message: the caller's fields (\<open>id\<close>, \<open>sourceNode\<close>, \<open>targetNode\<close>) and the
  routing metadata that \<open>routeMessage\<close> adds.
\<close>

record message =
  msg_id :: string
  msg_sourceNode :: string
  msg_targetNode :: string
  routingAttempts :: nat
  maxRoutingAttempts :: nat

datatype task_status = Pending | Delivered

record delivery_task =
  task_message :: message
  routingPath :: "js_key list"
  currentHop :: nat
  task_status :: task_status

datatype router_error =
    RouterNotInitialized
  | TargetNodeNotFound js_key
  | SourceNodeNotFound js_key
  | NoValidRoutingPath
  | CannotRouteThroughNode js_key
  | FailedMessageNotFound string
  | CollaboratorFailed

record failure =
  failed_message :: message
  failure_error :: router_error
  failure_routingPath :: "js_key list option"

record router =
  messageQueue :: "message list"
  deliveryQueue :: "delivery_task list"
  failedMessages :: "failure list"
  messagesRouted :: nat
  messagesDelivered :: nat
  messagesFailed :: nat
  isInitialized :: bool

section \<open>TopologyManager\<close>

definition set_add :: "'a \<Rightarrow> 'a list \<Rightarrow> 'a list" where
  "set_add x s = (if x \<in> set s then s else s @ [x])"

text \<open>\<open>Array.findIndex\<close> and \<open>Array.indexOf\<close>: the first position, \<open>None\<close> for \<open>-1\<close>.\<close>

fun findIndex :: "('a \<Rightarrow> bool) \<Rightarrow> 'a list \<Rightarrow> nat option" where
  "findIndex p [] = None"
| "findIndex p (x # xs) =
     (if p x then Some 0 else map_option Suc (findIndex p xs))"

text \<open>\<open>addNode\<close> stores the node under its name and sets its graph entry to a new empty set.\<close>

definition addNode :: "topology \<Rightarrow> node \<Rightarrow> topology" where
  "addNode T n =
     T\<lparr>nodes := AList.update (node_name n) n (nodes T),
       topologyGraph := AList.update (node_name n) [] (topologyGraph T)\<rparr>"

text \<open>
  \<open>addConnection\<close> stores the connection, and adds the two edges only when both endpoints
  are in the mesh network's node registry (the first argument).
\<close>

definition graph_ensure :: "string \<Rightarrow> (string \<times> string list) list \<Rightarrow> (string \<times> string list) list" where
  "graph_ensure k g = (if map_of g k = None then AList.update k [] g else g)"

definition addConnection :: "(string \<times> node) list \<Rightarrow> topology \<Rightarrow> connection \<Rightarrow> topology" where
  "addConnection reg T c =
     (let cs = AList.update (conn_id c) c (connections T);
          s = conn_sourceNode c;
          t = conn_targetNode c;
          g = (if map_of reg s \<noteq> None \<and> map_of reg t \<noteq> None
               then AList.map_entry t (set_add s)
                      (AList.map_entry s (set_add t)
                         (graph_ensure t (graph_ensure s (topologyGraph T))))
               else topologyGraph T)
      in T\<lparr>connections := cs, topologyGraph := g, totalConnections := length cs\<rparr>)"

text \<open>\<open>removeConnection\<close> returns at once when the id is unknown.\<close>

definition removeConnection :: "topology \<Rightarrow> string \<Rightarrow> topology" where
  "removeConnection T connectionId =
     (case map_of (connections T) connectionId of
        None \<Rightarrow> T
      | Some c \<Rightarrow>
          (let g1 = AList.map_entry (conn_sourceNode c) (removeAll (conn_targetNode c))
                      (topologyGraph T);
               g2 = AList.map_entry (conn_targetNode c) (removeAll (conn_sourceNode c)) g1;
               cs = AList.delete connectionId (connections T)
           in T\<lparr>topologyGraph := g2, connections := cs, totalConnections := length cs\<rparr>))"

definition touches :: "string \<Rightarrow> connection \<Rightarrow> bool" where
  "touches n c = (conn_sourceNode c = n \<or> conn_targetNode c = n)"

definition removeNode :: "topology \<Rightarrow> node \<Rightarrow> topology" where
  "removeNode T n =
     (let connectionsToRemove = map fst (filter (\<lambda>(_, c). touches (node_name n) c) (connections T));
          T1 = fold (\<lambda>connectionId T'. removeConnection T' connectionId) connectionsToRemove T
      in T1\<lparr>nodes := AList.delete (node_name n) (nodes T1),
            topologyGraph := AList.delete (node_name n) (topologyGraph T1)\<rparr>)"

definition getConnection :: "topology \<Rightarrow> string \<Rightarrow> string \<Rightarrow> connection option" where
  "getConnection T sourceNodeName targetNodeName =
     find (\<lambda>c. (conn_sourceNode c = sourceNodeName \<and> conn_targetNode c = targetNodeName)
             \<or> (conn_sourceNode c = targetNodeName \<and> conn_targetNode c = sourceNodeName))
          (map snd (connections T))"

definition getNodeConnections :: "topology \<Rightarrow> string \<Rightarrow> connection list" where
  "getNodeConnections T nodeName = filter (touches nodeName) (map snd (connections T))"

subsection \<open>findShortestPath\<close>

text \<open>
  The search keeps \<open>distances\<close> and \<open>previous\<close> as maps and \<open>unvisited\<close> as a set, all
  keyed by the keys of the manager's own \<open>nodes\<close> map (node names); the source's
  distance is stored under \<open>sourceNode.id\<close>, and the walk back starts at \<open>targetNode.id\<close>.
\<close>

type_synonym dijkstra_state = "(string \<times> enat) list \<times> (string \<times> string) list \<times> string list"

text \<open>The scan for the unvisited node of least distance: a strictly smaller distance wins.\<close>

definition minUnvisited :: "(string \<times> enat) list \<Rightarrow> string list \<Rightarrow> string option \<times> enat" where
  "minUnvisited distances unvisited =
     fold (\<lambda>nodeId (current, minDistance).
             case map_of distances nodeId of
               Some d \<Rightarrow> if d < minDistance then (Some nodeId, d) else (current, minDistance)
             | None \<Rightarrow> (current, minDistance))
          unvisited (None, \<infinity>)"

definition neighborsOf :: "topology \<Rightarrow> string \<Rightarrow> string list" where
  "neighborsOf T n = (case map_of (topologyGraph T) n of None \<Rightarrow> [] | Some s \<Rightarrow> s)"

definition relaxNeighbors ::
  "string \<Rightarrow> string list \<Rightarrow> string list \<Rightarrow>
   (string \<times> enat) list \<times> (string \<times> string) list \<Rightarrow>
   (string \<times> enat) list \<times> (string \<times> string) list" where
  "relaxNeighbors current unvisited neighbors dp =
     fold (\<lambda>neighbor (distances, previous).
             if neighbor \<in> set unvisited
             then (case (map_of distances current, map_of distances neighbor) of
                     (Some dc, Some dn) \<Rightarrow>
                       if dc + 1 < dn
                       then (AList.update neighbor (dc + 1) distances,
                             AList.update neighbor current previous)
                       else (distances, previous)
                   | _ \<Rightarrow> (distances, previous))
             else (distances, previous))
          neighbors dp"

lemma minUnvisited_aux:
  "fold (\<lambda>nodeId (current, minDistance).
             case map_of distances nodeId of
               Some d \<Rightarrow> if d < minDistance then (Some nodeId, d) else (current, minDistance)
             | None \<Rightarrow> (current, minDistance)) unvisited (c0, m0) = (Some x, m)
   \<Longrightarrow> x \<in> set unvisited \<or> c0 = Some x"
  by (induction unvisited arbitrary: c0 m0) (auto split: option.splits if_splits)

lemma minUnvisited_member:
  "minUnvisited distances unvisited = (Some x, m) \<Longrightarrow> x \<in> set unvisited"
  unfolding minUnvisited_def using minUnvisited_aux by fastforce

function dijkstraLoop :: "topology \<Rightarrow> string \<Rightarrow> dijkstra_state \<Rightarrow> dijkstra_state" where
  "dijkstraLoop T targetId (distances, previous, unvisited) =
     (if unvisited = [] then (distances, previous, unvisited)
      else
        (case minUnvisited distances unvisited of
           (None, _) \<Rightarrow> (distances, previous, unvisited)
         | (Some current, minDistance) \<Rightarrow>
             if minDistance = \<infinity> then (distances, previous, unvisited)
             else if current = targetId then (distances, previous, removeAll current unvisited)
             else
               (case relaxNeighbors current (removeAll current unvisited)
                       (neighborsOf T current) (distances, previous) of
                  (distances', previous') \<Rightarrow>
                    dijkstraLoop T targetId (distances', previous', removeAll current unvisited))))"
  by pat_completeness auto
termination
  apply (relation "measure (\<lambda>(T, targetId, distances, previous, unvisited). length unvisited)")
   apply simp
  apply (auto dest!: sym [of _ "minUnvisited _ _"] dest: minUnvisited_member
      simp: length_removeAll_less)
  done

text \<open>\<open>previous.get(current)\<close>: \<open>undefined\<close> for a key the map does not hold.\<close>

definition previous_get :: "(string \<times> string) list \<Rightarrow> js_key \<Rightarrow> js_key" where
  "previous_get previous k =
     (case k of
        JString s \<Rightarrow> (case map_of previous s of Some p \<Rightarrow> JString p | None \<Rightarrow> JUndefined)
      | _ \<Rightarrow> JUndefined)"

text \<open>
  The walk back from the target: \<open>while (current !== null) { path.unshift(current);
  current = previous.get(current) }\<close>. The result is \<open>None\<close> when the loop never ends.
\<close>

partial_function (option) reconstructPath ::
  "(string \<times> string) list \<Rightarrow> js_key \<Rightarrow> js_key list \<Rightarrow> js_key list option" where
  "reconstructPath previous current path =
     (if current = JNull then Some path
      else reconstructPath previous (previous_get previous current) (current # path))"

declare reconstructPath.simps [code]

text \<open>
  \<open>findShortestPath\<close>: \<open>None\<close> when the call never returns, \<open>Some None\<close> when it
  returns \<open>null\<close>, \<open>Some (Some path)\<close> when it returns a path.
\<close>

definition findShortestPath ::
  "(string \<times> node) list \<Rightarrow> topology \<Rightarrow> string \<Rightarrow> string \<Rightarrow> js_key list option option" where
  "findShortestPath reg T sourceNodeName targetNodeName =
     (case (map_of reg sourceNodeName, map_of reg targetNodeName) of
        (Some sourceNode, Some targetNode) \<Rightarrow>
          (let keys = map fst (nodes T);
               distances = AList.update (node_id sourceNode) 0 (map (\<lambda>k. (k, \<infinity>)) keys)
           in case dijkstraLoop T (node_id targetNode) (distances, [], keys) of
                (_, previous, _) \<Rightarrow>
                  (case reconstructPath previous (JString (node_id targetNode)) [] of
                     None \<Rightarrow> None
                   | Some path \<Rightarrow> Some (if length path > 1 then Some path else None)))
      | _ \<Rightarrow> Some None)"

subsection \<open>calculateNetworkDiameter and floydWarshall\<close>









subsection \<open>Shortest distances between node positions\<close>











section \<open>MessageRouter\<close>

text \<open>
  The mesh network as the router sees it: the node registry, the topology manager, and the
  two operations of the network and its nodes that the router calls and that are not part
  of the router: \<open>Node.receiveMessage\<close> and \<open>MeshNetwork.sendMessage\<close>, each \<open>False\<close> when
  the call throws.
\<close>

record mesh =
  mesh_nodes :: "(string \<times> node) list"
  topologyManager :: topology
  receiveMessage :: "node \<Rightarrow> message \<Rightarrow> bool"
  sendMessage :: "node \<Rightarrow> node \<Rightarrow> message \<Rightarrow> bool"

text \<open>Lookups whose argument comes out of a path array, and so may be \<open>undefined\<close>.\<close>

definition nodes_get :: "(string \<times> node) list \<Rightarrow> js_key \<Rightarrow> node option" where
  "nodes_get reg k = (case k of JString s \<Rightarrow> map_of reg s | _ \<Rightarrow> None)"

definition key_getConnection :: "topology \<Rightarrow> js_key \<Rightarrow> js_key \<Rightarrow> connection option" where
  "key_getConnection T a b =
     (case (a, b) of (JString s, JString t) \<Rightarrow> getConnection T s t | _ \<Rightarrow> None)"

definition key_getNodeConnections :: "topology \<Rightarrow> js_key \<Rightarrow> connection list" where
  "key_getNodeConnections T k = (case k of JString s \<Rightarrow> getNodeConnections T s | _ \<Rightarrow> [])"

definition key_findShortestPath ::
  "(string \<times> node) list \<Rightarrow> topology \<Rightarrow> js_key \<Rightarrow> js_key \<Rightarrow> js_key list option option" where
  "key_findShortestPath reg T a b =
     (case (a, b) of (JString s, JString t) \<Rightarrow> findShortestPath reg T s t | _ \<Rightarrow> Some None)"

definition array_get :: "js_key list \<Rightarrow> int \<Rightarrow> js_key" where
  "array_get xs i = (if 0 \<le> i \<and> i < int (length xs) then xs ! nat i else JUndefined)"

text \<open>\<open>nodeId => { const node = nodes.get(nodeId); return node ? node.name : nodeId }\<close>\<close>

definition toName :: "(string \<times> node) list \<Rightarrow> js_key \<Rightarrow> js_key" where
  "toName reg nodeId =
     (case nodes_get reg nodeId of Some n \<Rightarrow> JString (node_name n) | None \<Rightarrow> nodeId)"

subsection \<open>Intake\<close>

definition routeMessage :: "router \<Rightarrow> message \<Rightarrow> router_error + router" where
  "routeMessage r m =
     (if \<not> isInitialized r then Inl RouterNotInitialized
      else Inr (r\<lparr>messageQueue := messageQueue r @ [m\<lparr>routingAttempts := 0, maxRoutingAttempts := 3\<rparr>],
                 messagesRouted := messagesRouted r + 1\<rparr>))"

definition otherEnd :: "string \<Rightarrow> connection \<Rightarrow> string" where
  "otherEnd n c = (if conn_sourceNode c = n then conn_targetNode c else conn_sourceNode c)"

text \<open>
  \<open>findFallbackPath\<close>: a breadth-first search over the stored connections, with the queue
  of (node, path) pairs and the visited set of the source; \<open>queue.shift()\<close> is read as
  \<open>hd queue\<close> and \<open>tl queue\<close> under the test that the queue is not empty.
\<close>

partial_function (option) fallbackLoop ::
  "topology \<Rightarrow> string \<Rightarrow> string list \<Rightarrow> (string \<times> string list) list \<Rightarrow> string list option option" where
  "fallbackLoop T targetNodeName visited queue =
     (if queue = [] then Some None
      else if fst (hd queue) = targetNodeName then Some (Some (snd (hd queue)))
      else if fst (hd queue) \<in> set visited then fallbackLoop T targetNodeName visited (tl queue)
      else fallbackLoop T targetNodeName (visited @ [fst (hd queue)])
             (tl queue @ map (\<lambda>nextNode. (nextNode, snd (hd queue) @ [nextNode]))
                          (filter (\<lambda>nextNode. nextNode \<notin> set (visited @ [fst (hd queue)]))
                             (map (otherEnd (fst (hd queue)))
                                (getNodeConnections T (fst (hd queue)))))))"

declare fallbackLoop.simps [code]

definition findFallbackPath :: "topology \<Rightarrow> string \<Rightarrow> string \<Rightarrow> js_key list option option" where
  "findFallbackPath T sourceNodeName targetNodeName =
     map_option (map_option (map JString))
       (fallbackLoop T targetNodeName [] [(sourceNodeName, [sourceNodeName])])"

definition determineRoutingPath :: "mesh \<Rightarrow> message \<Rightarrow> js_key list option option" where
  "determineRoutingPath M m =
     (case (map_of (mesh_nodes M) (msg_sourceNode m), map_of (mesh_nodes M) (msg_targetNode m)) of
        (Some _, Some _) \<Rightarrow>
          (case getConnection (topologyManager M) (msg_sourceNode m) (msg_targetNode m) of
             Some _ \<Rightarrow> Some (Some [JString (msg_sourceNode m), JString (msg_targetNode m)])
           | None \<Rightarrow>
               (case findShortestPath (mesh_nodes M) (topologyManager M)
                       (msg_sourceNode m) (msg_targetNode m) of
                  None \<Rightarrow> None
                | Some (Some path) \<Rightarrow> Some (Some (map (toName (mesh_nodes M)) path))
                | Some None \<Rightarrow>
                    findFallbackPath (topologyManager M) (msg_sourceNode m) (msg_targetNode m)))
      | _ \<Rightarrow> Some None)"

text \<open>
  \<open>processMessage\<close>: \<open>None\<close> when the call never returns, \<open>Some (Inl e)\<close> when it throws,
  \<open>Some (Inr r')\<close> when it queued a delivery task.
\<close>

definition processMessage :: "mesh \<Rightarrow> router \<Rightarrow> message \<Rightarrow> (router_error + router) option" where
  "processMessage M r m =
     (case map_of (mesh_nodes M) (msg_targetNode m) of
        None \<Rightarrow> Some (Inl (TargetNodeNotFound (JString (msg_targetNode m))))
      | Some _ \<Rightarrow>
          (case map_of (mesh_nodes M) (msg_sourceNode m) of
             None \<Rightarrow> Some (Inl (SourceNodeNotFound (JString (msg_sourceNode m))))
           | Some _ \<Rightarrow>
               (case determineRoutingPath M m of
                  None \<Rightarrow> None
                | Some None \<Rightarrow> Some (Inl NoValidRoutingPath)
                | Some (Some path) \<Rightarrow>
                    Some (Inr (r\<lparr>deliveryQueue := deliveryQueue r @
                                 [\<lparr>task_message = m, routingPath = path, currentHop = 0,
                                   task_status = Pending\<rparr>]\<rparr>)))))"

subsection \<open>Failure bookkeeping\<close>

text \<open>\<open>handleMessageFailure\<close>: count the attempt, then retry at intake or archive.\<close>

definition handleMessageFailure :: "router \<Rightarrow> message \<Rightarrow> router_error \<Rightarrow> router" where
  "handleMessageFailure r m e =
     (let m' = m\<lparr>routingAttempts := routingAttempts m + 1\<rparr> in
      if routingAttempts m' < maxRoutingAttempts m'
      then r\<lparr>messageQueue := messageQueue r @ [m']\<rparr>
      else r\<lparr>failedMessages := failedMessages r @
                 [\<lparr>failed_message = m', failure_error = e, failure_routingPath = None\<rparr>],
             messagesFailed := messagesFailed r + 1\<rparr>)"

text \<open>\<open>handleDeliveryFailure\<close>: the same for a delivery task, which goes back to the delivery queue.\<close>

definition handleDeliveryFailure :: "router \<Rightarrow> delivery_task \<Rightarrow> router_error \<Rightarrow> router" where
  "handleDeliveryFailure r t e =
     (let m' = (task_message t)\<lparr>routingAttempts := routingAttempts (task_message t) + 1\<rparr> in
      if routingAttempts m' < maxRoutingAttempts m'
      then r\<lparr>deliveryQueue := deliveryQueue r @ [t\<lparr>task_message := m', task_status := Pending\<rparr>]\<rparr>
      else r\<lparr>failedMessages := failedMessages r @
                 [\<lparr>failed_message = m', failure_error = e,
                   failure_routingPath = Some (routingPath t)\<rparr>],
             messagesFailed := messagesFailed r + 1\<rparr>)"

text \<open>
  \<open>retryFailedMessage\<close>: \<open>findIndex\<close> takes the first archived failure with the given
  message id; \<open>splice\<close> removes it; the message goes back to intake with its counter at 0.
  An unknown id throws.
\<close>

definition retryFailedMessage :: "router \<Rightarrow> string \<Rightarrow> router_error + router" where
  "retryFailedMessage r messageId =
     (case findIndex (\<lambda>f. msg_id (failed_message f) = messageId) (failedMessages r) of
        None \<Rightarrow> Inl (FailedMessageNotFound messageId)
      | Some i \<Rightarrow>
          Inr (r\<lparr>failedMessages := take i (failedMessages r) @ drop (Suc i) (failedMessages r),
                 messageQueue := messageQueue r @
                   [(failed_message (failedMessages r ! i))\<lparr>routingAttempts := 0\<rparr>]\<rparr>))"

text \<open>\<open>clearFailedMessages\<close> returns the number of archived failures and the new state.\<close>

definition clearFailedMessages :: "router \<Rightarrow> nat \<times> router" where
  "clearFailedMessages r =
     (length (failedMessages r), r\<lparr>failedMessages := [], messagesFailed := 0\<rparr>)"

subsection \<open>The two queue processors\<close>

fun processMessages :: "mesh \<Rightarrow> message list \<Rightarrow> router \<Rightarrow> router option" where
  "processMessages M [] r = Some r"
| "processMessages M (m # ms) r =
     (case processMessage M r m of
        None \<Rightarrow> None
      | Some (Inl e) \<Rightarrow> processMessages M ms (handleMessageFailure r m e)
      | Some (Inr r') \<Rightarrow> processMessages M ms r')"

text \<open>\<open>processMessageQueue\<close>: \<open>splice(0, 5)\<close> takes the batch out of the queue first.\<close>

definition processMessageQueue :: "mesh \<Rightarrow> router \<Rightarrow> router option" where
  "processMessageQueue M r =
     (if messageQueue r = [] then Some r
      else processMessages M (take 5 (messageQueue r)) (r\<lparr>messageQueue := drop 5 (messageQueue r)\<rparr>))"

definition deliverMessage :: "mesh \<Rightarrow> router \<Rightarrow> message \<Rightarrow> js_key \<Rightarrow> router_error + router" where
  "deliverMessage M r m targetNodeName =
     (case nodes_get (mesh_nodes M) targetNodeName of
        None \<Rightarrow> Inl (TargetNodeNotFound targetNodeName)
      | Some targetNode \<Rightarrow>
          if receiveMessage M targetNode m
          then Inr (r\<lparr>messagesDelivered := messagesDelivered r + 1\<rparr>)
          else Inl CollaboratorFailed)"

definition truthy :: "capability_value option \<Rightarrow> bool" where
  "truthy v = (case v of None \<Rightarrow> False | Some (CapBool b) \<Rightarrow> b | Some (CapString s) \<Rightarrow> s \<noteq> [])"

definition canRouteThroughNode :: "mesh \<Rightarrow> js_key \<Rightarrow> js_key \<Rightarrow> bool" where
  "canRouteThroughNode M nodeName nextNodeName =
     (case nodes_get (mesh_nodes M) nodeName of
        None \<Rightarrow> False
      | Some n \<Rightarrow>
          if \<not> truthy (map_of (capabilities n) ''routing'') then False
          else if key_getConnection (topologyManager M) nodeName nextNodeName = None then False
          else if node_status n \<noteq> ''active'' then False
          else True)"

text \<open>\<open>forwardMessage\<close> sends only when both hops are registered; \<open>Some e\<close> is a throw.\<close>

definition forwardMessage :: "mesh \<Rightarrow> message \<Rightarrow> js_key \<Rightarrow> js_key \<Rightarrow> router_error option" where
  "forwardMessage M m currentNodeName nextNodeName =
     (case (nodes_get (mesh_nodes M) currentNodeName, nodes_get (mesh_nodes M) nextNodeName) of
        (Some currentNode, Some nextNode) \<Rightarrow>
          if sendMessage M currentNode nextNode m then None else Some CollaboratorFailed
      | _ \<Rightarrow> None)"

fun alternativeLoop :: "mesh \<Rightarrow> js_key \<Rightarrow> js_key \<Rightarrow> connection list \<Rightarrow> js_key list option option" where
  "alternativeLoop M currentNodeName targetNodeName [] = Some None"
| "alternativeLoop M currentNodeName targetNodeName (c # cs) =
     (let nextNode = JString (if JString (conn_sourceNode c) = currentNodeName
                              then conn_targetNode c else conn_sourceNode c)
      in if nextNode \<noteq> targetNodeName
         then (case key_findShortestPath (mesh_nodes M) (topologyManager M) nextNode targetNodeName of
                 None \<Rightarrow> None
               | Some (Some alternativePath) \<Rightarrow>
                   Some (Some (currentNodeName # map (toName (mesh_nodes M)) alternativePath))
               | Some None \<Rightarrow> alternativeLoop M currentNodeName targetNodeName cs)
         else alternativeLoop M currentNodeName targetNodeName cs)"

definition findAlternativePath :: "mesh \<Rightarrow> js_key \<Rightarrow> js_key \<Rightarrow> js_key list option option" where
  "findAlternativePath M currentNodeName targetNodeName =
     alternativeLoop M currentNodeName targetNodeName
       (key_getNodeConnections (topologyManager M) currentNodeName)"

text \<open>
  \<open>processDeliveryTask\<close> returns the router state and the task as the call leaves it
  (\<open>Some (Inr (r', t'))\<close>), throws (\<open>Some (Inl e)\<close>), or never returns (\<open>None\<close>).
\<close>

definition processDeliveryTask ::
  "mesh \<Rightarrow> router \<Rightarrow> delivery_task \<Rightarrow> (router_error + router \<times> delivery_task) option" where
  "processDeliveryTask M r t =
     (if task_status t \<noteq> Pending then Some (Inr (r, t))
      else if int (currentHop t) \<ge> int (length (routingPath t)) - 1
      then (case deliverMessage M r (task_message t)
                   (array_get (routingPath t) (int (length (routingPath t)) - 1)) of
              Inl e \<Rightarrow> Some (Inl e)
            | Inr r' \<Rightarrow> Some (Inr (r', t\<lparr>task_status := Delivered\<rparr>)))
      else
        (let currentNode = array_get (routingPath t) (int (currentHop t));
             nextNode = array_get (routingPath t) (int (currentHop t) + 1)
         in if length (routingPath t) = 2 \<and> currentHop t = 0
            then (case deliverMessage M r (task_message t) nextNode of
                    Inl e \<Rightarrow> Some (Inl e)
                  | Inr r' \<Rightarrow> Some (Inr (r', t\<lparr>task_status := Delivered\<rparr>)))
            else if canRouteThroughNode M currentNode nextNode
            then (case forwardMessage M (task_message t) currentNode nextNode of
                    Some e \<Rightarrow> Some (Inl e)
                  | None \<Rightarrow> Some (Inr (r, t\<lparr>currentHop := currentHop t + 1\<rparr>)))
            else (case findAlternativePath M currentNode nextNode of
                    None \<Rightarrow> None
                  | Some (Some alternativePath) \<Rightarrow>
                      Some (Inr (r, t\<lparr>routingPath := alternativePath, currentHop := 0\<rparr>))
                  | Some None \<Rightarrow> Some (Inl (CannotRouteThroughNode currentNode)))))"

text \<open>
  \<open>processDeliveryQueue\<close>: \<open>splice(0, 3)\<close> takes the batch out of the queue; a task comes
  back into a queue only through \<open>handleDeliveryFailure\<close>.
\<close>

fun processDeliveryTasks :: "mesh \<Rightarrow> delivery_task list \<Rightarrow> router \<Rightarrow> router option" where
  "processDeliveryTasks M [] r = Some r"
| "processDeliveryTasks M (t # ts) r =
     (case processDeliveryTask M r t of
        None \<Rightarrow> None
      | Some (Inl e) \<Rightarrow> processDeliveryTasks M ts (handleDeliveryFailure r t e)
      | Some (Inr (r', t')) \<Rightarrow> processDeliveryTasks M ts r')"

definition processDeliveryQueue :: "mesh \<Rightarrow> router \<Rightarrow> router option" where
  "processDeliveryQueue M r =
     (if deliveryQueue r = [] then Some r
      else processDeliveryTasks M (take 3 (deliveryQueue r))
             (r\<lparr>deliveryQueue := drop 3 (deliveryQueue r)\<rparr>))"

subsection \<open>Accepted envelopes and the states the router reaches\<close>







subsection \<open>The invariants of the topology\<close>

text \<open>
  The three invariants of the data model: the adjacency is symmetric; every name in the
  adjacency map, as a key or as a neighbour, is a key of the manager's node map; every
  stored connection has its two edges in the adjacency map.
\<close>

definition graph_symmetric :: "topology \<Rightarrow> bool" where
  "graph_symmetric T =
     (\<forall>a \<in> fst ` set (topologyGraph T). \<forall>b \<in> set (neighborsOf T a). a \<in> set (neighborsOf T b))"

definition names_are_live :: "topology \<Rightarrow> bool" where
  "names_are_live T =
     (\<forall>a \<in> fst ` set (topologyGraph T).
        a \<in> fst ` set (nodes T) \<and> (\<forall>b \<in> set (neighborsOf T a). b \<in> fst ` set (nodes T)))"

definition connections_have_edges :: "topology \<Rightarrow> bool" where
  "connections_have_edges T =
     (\<forall>ic \<in> set (connections T).
        conn_targetNode (snd ic) \<in> set (neighborsOf T (conn_sourceNode (snd ic)))
        \<and> conn_sourceNode (snd ic) \<in> set (neighborsOf T (conn_targetNode (snd ic))))"

definition claimed_invariants :: "topology \<Rightarrow> bool" where
  "claimed_invariants T = (graph_symmetric T \<and> names_are_live T \<and> connections_have_edges T)"

text \<open>
  What the mutations need besides: the keys of each map are distinct (they are maps), every
  edge is backed by a stored connection, and no two stored connections join the same pair.
\<close>

definition joins :: "connection \<Rightarrow> string \<Rightarrow> string \<Rightarrow> bool" where
  "joins c a b = ((conn_sourceNode c = a \<and> conn_targetNode c = b)
                  \<or> (conn_sourceNode c = b \<and> conn_targetNode c = a))"

definition keys_distinct :: "topology \<Rightarrow> bool" where
  "keys_distinct T = (distinct (map fst (connections T)) \<and> distinct (map fst (nodes T))
                      \<and> distinct (map fst (topologyGraph T)))"

definition edges_backed :: "topology \<Rightarrow> bool" where
  "edges_backed T =
     (\<forall>a \<in> fst ` set (topologyGraph T). \<forall>b \<in> set (neighborsOf T a).
        \<exists>ic \<in> set (connections T). joins (snd ic) a b)"

definition one_connection_per_pair :: "topology \<Rightarrow> bool" where
  "one_connection_per_pair T =
     (\<forall>ic \<in> set (connections T). \<forall>jd \<in> set (connections T).
        fst ic \<noteq> fst jd \<longrightarrow> \<not> joins (snd jd) (conn_sourceNode (snd ic)) (conn_targetNode (snd ic)))"

definition topology_inv :: "topology \<Rightarrow> bool" where
  "topology_inv T =
     (keys_distinct T \<and> claimed_invariants T \<and> edges_backed T \<and> one_connection_per_pair T)"

section \<open>DiscoveryProtocol: matching a node against a query\<close>

text \<open>
  A query field that is absent or the empty string (or a minimum trust score of 0) is
  falsy, and its test is skipped. \<open>toLowerCase\<close> is modelled on ASCII letters, and
  \<open>String.includes\<close> is the search for a contiguous substring.
\<close>

record query =
  query_name :: "string option"
  query_type :: "string option"
  query_capability :: "string option"
  query_status :: "string option"
  query_minTrustScore :: "int option"

definition toLowerCase :: "string \<Rightarrow> string" where
  "toLowerCase s =
     map (\<lambda>c. if 65 \<le> (of_char c :: nat) \<and> (of_char c :: nat) \<le> 90
              then char_of ((of_char c :: nat) + 32) else c) s"

fun str_includes :: "string \<Rightarrow> string \<Rightarrow> bool" where
  "str_includes [] sub = (sub = [])"
| "str_includes (c # cs) sub = (take (length sub) (c # cs) = sub \<or> str_includes cs sub)"

definition given :: "string option \<Rightarrow> bool" where
  "given v = (case v of None \<Rightarrow> False | Some s \<Rightarrow> s \<noteq> [])"

text \<open>
  \<open>Object.values(node.capabilities).some(cap => cap === true || (typeof cap === 'string'
  && cap.toLowerCase().includes(query.capability.toLowerCase())))\<close>
\<close>

definition hasCapability :: "node \<Rightarrow> string \<Rightarrow> bool" where
  "hasCapability n capability =
     list_ex (\<lambda>cap. case cap of
                 CapBool b \<Rightarrow> b
               | CapString s \<Rightarrow> str_includes (toLowerCase s) (toLowerCase capability))
       (map snd (capabilities n))"

definition nodeMatchesQuery :: "node \<Rightarrow> query \<Rightarrow> bool" where
  "nodeMatchesQuery n q =
     (if given (query_name q)
         \<and> \<not> str_includes (toLowerCase (node_name n)) (toLowerCase (the (query_name q)))
      then False
      else if given (query_type q) \<and> node_type n \<noteq> the (query_type q) then False
      else if given (query_capability q) \<and> \<not> hasCapability n (the (query_capability q))
      then False
      else if given (query_status q) \<and> node_status n \<noteq> the (query_status q) then False
      else if (case query_minTrustScore q of
                 None \<Rightarrow> False
               | Some t \<Rightarrow> t \<noteq> 0 \<and> trustScore n < t)
      then False
      else True)"

text \<open>
  What the specification asks of a capability query: the queried capability is present
  with the value \<open>true\<close>, or some string-valued capability contains the queried string.
\<close>

definition capability_present_and_true_or_contained :: "node \<Rightarrow> string \<Rightarrow> bool" where
  "capability_present_and_true_or_contained n capability =
     (map_of (capabilities n) capability = Some (CapBool True)
      \<or> list_ex (\<lambda>cap. case cap of
                     CapBool b \<Rightarrow> False
                   | CapString s \<Rightarrow> str_includes (toLowerCase s) (toLowerCase capability))
           (map snd (capabilities n)))"

section \<open>A small network for concrete runs\<close>

text \<open>
  Three active nodes \<open>a\<close>, \<open>b\<close>, \<open>c\<close> with the routing capability, connected in a chain
  \<open>a - b - c\<close>; every \<open>receiveMessage\<close> and \<open>sendMessage\<close> succeeds.
\<close>

definition example_node :: "string \<Rightarrow> node" where
  "example_node n =
     \<lparr>node_id = ''id-'' @ n, node_name = n, node_type = ''standard'', node_status = ''active'',
      capabilities = [(''routing'', CapBool True)], trustScore = 50\<rparr>"

definition example_connection :: "string \<Rightarrow> string \<Rightarrow> string \<Rightarrow> connection" where
  "example_connection i s t = \<lparr>conn_id = i, conn_sourceNode = s, conn_targetNode = t\<rparr>"

definition empty_topology :: topology where
  "empty_topology = \<lparr>connections = [], nodes = [], topologyGraph = [], totalConnections = 0\<rparr>"

definition chain_registry :: "(string \<times> node) list" where
  "chain_registry =
     [(''a'', example_node ''a''), (''b'', example_node ''b''), (''c'', example_node ''c'')]"

definition chain_topology :: topology where
  "chain_topology =
     addConnection chain_registry
       (addConnection chain_registry
          (addNode (addNode (addNode empty_topology (example_node ''a'')) (example_node ''b''))
             (example_node ''c''))
          (example_connection ''c1'' ''a'' ''b''))
       (example_connection ''c2'' ''b'' ''c'')"

definition chain_mesh :: mesh where
  "chain_mesh = \<lparr>mesh_nodes = chain_registry, topologyManager = chain_topology,
                  receiveMessage = (\<lambda>_ _. True), sendMessage = (\<lambda>_ _ _. True)\<rparr>"

definition empty_router :: router where
  "empty_router = \<lparr>messageQueue = [], deliveryQueue = [], failedMessages = [],
     messagesRouted = 0, messagesDelivered = 0, messagesFailed = 0, isInitialized = True\<rparr>"

definition example_message :: "string \<Rightarrow> string \<Rightarrow> message" where
  "example_message s t = \<lparr>msg_id = ''m1'', msg_sourceNode = s, msg_targetNode = t,
     routingAttempts = 0, maxRoutingAttempts = 3\<rparr>"

text \<open>
  Two isolated nodes; and the chain with a second connection \<open>c9\<close> between \<open>a\<close> and \<open>b\<close>.
\<close>

definition two_node_topology :: topology where
  "two_node_topology = addNode (addNode empty_topology (example_node ''a'')) (example_node ''b'')"

definition doubled_topology :: topology where
  "doubled_topology = addConnection chain_registry chain_topology (example_connection ''c9'' ''a'' ''b'')"



text \<open>A router whose archive holds one message that failed three times.\<close>

definition archived_router :: router where
  "archived_router = empty_router\<lparr>failedMessages :=
     [\<lparr>failed_message = (example_message ''a'' ''zz'')\<lparr>routingAttempts := 3\<rparr>,
       failure_error = TargetNodeNotFound (JString ''zz''), failure_routingPath = None\<rparr>],
     messagesFailed := 1\<rparr>"

text \<open>
  A router whose archive holds two messages with the same id, for the unknown nodes \<open>zz\<close>
  and \<open>yy\<close>; and the router after one message from \<open>a\<close> to \<open>b\<close> was delivered.
\<close>

definition duplicate_archive_router :: router where
  "duplicate_archive_router = empty_router\<lparr>failedMessages :=
     [\<lparr>failed_message = (example_message ''a'' ''zz'')\<lparr>routingAttempts := 3\<rparr>,
       failure_error = TargetNodeNotFound (JString ''zz''), failure_routingPath = None\<rparr>,
      \<lparr>failed_message = (example_message ''a'' ''yy'')\<lparr>routingAttempts := 3\<rparr>,
       failure_error = TargetNodeNotFound (JString ''yy''), failure_routingPath = None\<rparr>],
     messagesRouted := 2, messagesFailed := 2\<rparr>"


section \<open>Properties\<close>

lemma chain_topology_eq:
  "chain_topology =
     \<lparr>connections =
        [(''c1'', \<lparr>conn_id = ''c1'', conn_sourceNode = ''a'', conn_targetNode = ''b''\<rparr>),
         (''c2'', \<lparr>conn_id = ''c2'', conn_sourceNode = ''b'', conn_targetNode = ''c''\<rparr>)],
      nodes = [(''a'', example_node ''a''), (''b'', example_node ''b''), (''c'', example_node ''c'')],
      topologyGraph = [(''a'', [''b'']), (''b'', [''a'', ''c'']), (''c'', [''b''])],
      totalConnections = 2\<rparr>"
  by (simp add: chain_topology_def addConnection_def addNode_def empty_topology_def
      example_connection_def chain_registry_def graph_ensure_def set_add_def example_node_def
      Let_def)

subsection \<open>The walk back in findShortestPath never ends\<close>

lemma previous_get_not_null: "previous_get previous k \<noteq> JNull"
  by (simp add: previous_get_def split: js_key.splits option.splits)

lemma reconstructPath_returns_only_at_null:
  assumes "reconstructPath previous current path = Some res"
  shows "current = JNull"
proof (rule reconstructPath.raw_induct
    [where P = "\<lambda>previous current path res. current = JNull", OF _ assms])
  fix f previous current path res
  assume IH: "\<And>p c pa y. f p c pa = Some y \<Longrightarrow> c = JNull"
    and step: "(if current = JNull then Some path
                else f previous (previous_get previous current) (current # path)) = Some res"
  show "current = JNull"
  proof (rule ccontr)
    assume "current \<noteq> JNull"
    with step have "f previous (previous_get previous current) (current # path) = Some res"
      by simp
    then have "previous_get previous current = JNull" by (rule IH)
    then show False by (simp add: previous_get_not_null)
  qed
qed

lemma reconstructPath_diverges:
  "current \<noteq> JNull \<Longrightarrow> reconstructPath previous current path = None"
  using reconstructPath_returns_only_at_null
  by (cases "reconstructPath previous current path") auto

lemma findShortestPath_registered_diverges:
  "map_of reg a = Some na \<Longrightarrow> map_of reg b = Some nb \<Longrightarrow> findShortestPath reg T a b = None"
  by (simp add: findShortestPath_def Let_def reconstructPath_diverges split: prod.splits)

lemma findShortestPath_unregistered:
  "map_of reg a = None \<or> map_of reg b = None \<Longrightarrow> findShortestPath reg T a b = Some None"
  by (auto simp add: findShortestPath_def split: option.splits)

lemma removeAll_set_add: "y \<notin> set xs \<Longrightarrow> removeAll y (set_add y xs) = xs"
  by (simp add: set_add_def)

lemma two_node_topology_eq:
  "two_node_topology = \<lparr>connections = [],
      nodes = [(''a'', example_node ''a''), (''b'', example_node ''b'')],
      topologyGraph = [(''a'', []), (''b'', [])], totalConnections = 0\<rparr>"
  by (simp add: two_node_topology_def addNode_def empty_topology_def example_node_def)

lemma doubled_topology_eq:
  "doubled_topology =
     \<lparr>connections =
        [(''c1'', \<lparr>conn_id = ''c1'', conn_sourceNode = ''a'', conn_targetNode = ''b''\<rparr>),
         (''c2'', \<lparr>conn_id = ''c2'', conn_sourceNode = ''b'', conn_targetNode = ''c''\<rparr>),
         (''c9'', \<lparr>conn_id = ''c9'', conn_sourceNode = ''a'', conn_targetNode = ''b''\<rparr>)],
      nodes = [(''a'', example_node ''a''), (''b'', example_node ''b''), (''c'', example_node ''c'')],
      topologyGraph = [(''a'', [''b'']), (''b'', [''a'', ''c'']), (''c'', [''b''])],
      totalConnections = 3\<rparr>"
  by (simp add: doubled_topology_def chain_topology_eq addConnection_def chain_registry_def
      example_connection_def graph_ensure_def set_add_def Let_def)

subsection \<open>What the mutations do to neighbours, keys and connections\<close>

lemma connections_addConnection:
  "map_of (connections (addConnection reg T c)) (conn_id c) = Some c"
  by (simp add: addConnection_def Let_def AList.update_conv')

lemma neighborsOf_removeConnection:
  "map_of (connections T) cid = Some c \<Longrightarrow>
   neighborsOf (removeConnection T cid) x =
     (if x = conn_targetNode c then removeAll (conn_sourceNode c) else id)
       ((if x = conn_sourceNode c then removeAll (conn_targetNode c) else id) (neighborsOf T x))"
  by (auto simp add: removeConnection_def neighborsOf_def Let_def AList.map_of_map_entry
      split: option.splits)

lemma neighborsOf_graph_ensure:
  "(case map_of (graph_ensure k g) x of None \<Rightarrow> [] | Some v \<Rightarrow> v)
     = (case map_of g x of None \<Rightarrow> [] | Some v \<Rightarrow> v)"
  by (simp add: graph_ensure_def AList.update_conv')

lemma graph_ensure_has: "map_of (graph_ensure k g) k \<noteq> None"
  by (simp add: graph_ensure_def AList.update_conv')

lemma graph_ensure_keeps: "map_of g k' \<noteq> None \<Longrightarrow> map_of (graph_ensure k g) k' \<noteq> None"
  by (simp add: graph_ensure_def AList.update_conv')

lemma neighborsOf_map_entry:
  "map_of g k \<noteq> None \<Longrightarrow>
   (case map_of (AList.map_entry k f g) x of None \<Rightarrow> [] | Some v \<Rightarrow> v)
     = (if x = k then f (case map_of g x of None \<Rightarrow> [] | Some v \<Rightarrow> v)
        else (case map_of g x of None \<Rightarrow> [] | Some v \<Rightarrow> v))"
  by (cases "map_of g k") (simp_all add: AList.map_of_map_entry)

lemma map_entry_keeps: "map_of g k' \<noteq> None \<Longrightarrow> map_of (AList.map_entry k f g) k' \<noteq> None"
  by (cases "map_of g k") (auto simp add: AList.map_of_map_entry)

lemma neighborsOf_addConnection:
  assumes "map_of reg (conn_sourceNode c) \<noteq> None" "map_of reg (conn_targetNode c) \<noteq> None"
  shows "neighborsOf (addConnection reg T c) x =
     (if x = conn_targetNode c then set_add (conn_sourceNode c) else id)
       ((if x = conn_sourceNode c then set_add (conn_targetNode c) else id) (neighborsOf T x))"
proof -
  let ?s = "conn_sourceNode c" and ?t = "conn_targetNode c"
  let ?g1 = "graph_ensure ?t (graph_ensure ?s (topologyGraph T))"
  let ?g2 = "AList.map_entry ?s (set_add ?t) ?g1"
  have g: "topologyGraph (addConnection reg T c) = AList.map_entry ?t (set_add ?s) ?g2"
    using assms by (simp add: addConnection_def Let_def)
  have s1: "map_of ?g1 ?s \<noteq> None"
    by (rule graph_ensure_keeps) (rule graph_ensure_has)
  have t1: "map_of ?g1 ?t \<noteq> None"
    by (rule graph_ensure_has)
  have t2: "map_of ?g2 ?t \<noteq> None"
    using t1 by (rule map_entry_keeps)
  show ?thesis
    unfolding neighborsOf_def g
    by (simp only: neighborsOf_map_entry [OF t2] neighborsOf_map_entry [OF s1]
        neighborsOf_graph_ensure) simp
qed

lemma neighborsOf_not_key: "a \<notin> fst ` set (topologyGraph T) \<Longrightarrow> neighborsOf T a = []"
proof -
  assume "a \<notin> fst ` set (topologyGraph T)"
  then have "map_of (topologyGraph T) a = None" by (simp add: map_of_eq_None_iff)
  then show ?thesis by (simp add: neighborsOf_def)
qed

text \<open>The invariants read over all names, not only over the keys of the graph.\<close>

lemma neighborsOf_key: "b \<in> set (neighborsOf T a) \<Longrightarrow> a \<in> fst ` set (topologyGraph T)"
  by (rule ccontr) (simp add: neighborsOf_not_key)

lemma graph_symmetric_iff:
  "graph_symmetric T \<longleftrightarrow> (\<forall>a b. b \<in> set (neighborsOf T a) \<longrightarrow> a \<in> set (neighborsOf T b))"
proof
  assume h: "graph_symmetric T"
  show "\<forall>a b. b \<in> set (neighborsOf T a) \<longrightarrow> a \<in> set (neighborsOf T b)"
  proof (intro allI impI)
    fix a b assume ab: "b \<in> set (neighborsOf T a)"
    then have "a \<in> fst ` set (topologyGraph T)" by (rule neighborsOf_key)
    with h ab show "a \<in> set (neighborsOf T b)"
      unfolding graph_symmetric_def by blast
  qed
next
  assume "\<forall>a b. b \<in> set (neighborsOf T a) \<longrightarrow> a \<in> set (neighborsOf T b)"
  then show "graph_symmetric T" unfolding graph_symmetric_def by blast
qed

lemma edges_backed_iff:
  "edges_backed T \<longleftrightarrow>
     (\<forall>a b. b \<in> set (neighborsOf T a) \<longrightarrow> (\<exists>ic \<in> set (connections T). joins (snd ic) a b))"
proof
  assume h: "edges_backed T"
  show "\<forall>a b. b \<in> set (neighborsOf T a) \<longrightarrow> (\<exists>ic \<in> set (connections T). joins (snd ic) a b)"
  proof (intro allI impI)
    fix a b assume ab: "b \<in> set (neighborsOf T a)"
    then have "a \<in> fst ` set (topologyGraph T)" by (rule neighborsOf_key)
    with h ab show "\<exists>ic \<in> set (connections T). joins (snd ic) a b"
      unfolding edges_backed_def by blast
  qed
next
  assume "\<forall>a b. b \<in> set (neighborsOf T a) \<longrightarrow> (\<exists>ic \<in> set (connections T). joins (snd ic) a b)"
  then show "edges_backed T" unfolding edges_backed_def by blast
qed

lemma names_are_live_iff:
  "names_are_live T \<longleftrightarrow>
     fst ` set (topologyGraph T) \<subseteq> fst ` set (nodes T)
     \<and> (\<forall>a b. b \<in> set (neighborsOf T a) \<longrightarrow> b \<in> fst ` set (nodes T))"
proof
  assume h: "names_are_live T"
  have 1: "fst ` set (topologyGraph T) \<subseteq> fst ` set (nodes T)"
    using h unfolding names_are_live_def by blast
  have 2: "\<forall>a b. b \<in> set (neighborsOf T a) \<longrightarrow> b \<in> fst ` set (nodes T)"
  proof (intro allI impI)
    fix a b assume ab: "b \<in> set (neighborsOf T a)"
    then have "a \<in> fst ` set (topologyGraph T)" by (rule neighborsOf_key)
    with h ab show "b \<in> fst ` set (nodes T)"
      unfolding names_are_live_def by blast
  qed
  from 1 2 show "fst ` set (topologyGraph T) \<subseteq> fst ` set (nodes T)
     \<and> (\<forall>a b. b \<in> set (neighborsOf T a) \<longrightarrow> b \<in> fst ` set (nodes T))" ..
next
  assume "fst ` set (topologyGraph T) \<subseteq> fst ` set (nodes T)
     \<and> (\<forall>a b. b \<in> set (neighborsOf T a) \<longrightarrow> b \<in> fst ` set (nodes T))"
  then show "names_are_live T" unfolding names_are_live_def by blast
qed

lemma set_neighborsOf_removeConnection:
  "map_of (connections T) cid = Some c \<Longrightarrow>
   set (neighborsOf (removeConnection T cid) x) =
     set (neighborsOf T x)
       - (if x = conn_sourceNode c then {conn_targetNode c} else {})
       - (if x = conn_targetNode c then {conn_sourceNode c} else {})"
  by (auto simp add: neighborsOf_removeConnection)

lemma set_connections_removeConnection:
  "set (connections (removeConnection T cid)) = {ic \<in> set (connections T). fst ic \<noteq> cid}"
proof (cases "map_of (connections T) cid")
  case None
  then have "cid \<notin> fst ` set (connections T)" by (simp add: map_of_eq_None_iff)
  with None show ?thesis by (force simp add: removeConnection_def)
next
  case (Some c)
  then show ?thesis
    by (auto simp add: removeConnection_def Let_def AList.delete_eq)
qed

lemma keys_removeConnection:
  "fst ` set (topologyGraph (removeConnection T cid)) = fst ` set (topologyGraph T)"
  "nodes (removeConnection T cid) = nodes T"
  by (auto simp add: removeConnection_def Let_def AList.dom_map_entry split: option.splits)

lemma keys_distinct_removeConnection:
  "keys_distinct T \<Longrightarrow> keys_distinct (removeConnection T cid)"
  by (auto simp add: keys_distinct_def removeConnection_def Let_def AList.distinct_map_entry
      AList.distinct_delete split: option.splits)

lemma removeConnection_preserves:
  assumes "topology_inv T"
  shows "topology_inv (removeConnection T cid)"
proof (cases "map_of (connections T) cid")
  case None
  with assms show ?thesis by (simp add: removeConnection_def)
next
  case (Some c)
  let ?T' = "removeConnection T cid"
  note N = set_neighborsOf_removeConnection [OF Some]
  note C = set_connections_removeConnection [of T cid]
  from assms have kd: "keys_distinct T" and sym: "graph_symmetric T" and live: "names_are_live T"
    and ce: "connections_have_edges T" and eb: "edges_backed T" and op: "one_connection_per_pair T"
    by (auto simp: topology_inv_def claimed_invariants_def)
  from Some have cin: "(cid, c) \<in> set (connections T)" by (rule map_of_SomeD)
  have uniq: "\<And>d. (cid, d) \<in> set (connections T) \<Longrightarrow> d = c"
    using kd Some by (auto simp: keys_distinct_def)
  have 1: "graph_symmetric ?T'"
    using sym unfolding graph_symmetric_iff N by (auto split: if_splits)
  have 2: "names_are_live ?T'"
    using live unfolding names_are_live_iff N keys_removeConnection by (auto split: if_splits)
  have 3: "connections_have_edges ?T'"
    unfolding connections_have_edges_def
  proof
    fix jd assume "jd \<in> set (connections ?T')"
    then have jd: "jd \<in> set (connections T)" "fst jd \<noteq> cid" by (auto simp: C)
    with op cin have nj: "\<not> joins (snd jd) (conn_sourceNode c) (conn_targetNode c)"
      by (fastforce simp: one_connection_per_pair_def)
    from ce jd(1) have "conn_targetNode (snd jd) \<in> set (neighborsOf T (conn_sourceNode (snd jd)))"
      "conn_sourceNode (snd jd) \<in> set (neighborsOf T (conn_targetNode (snd jd)))"
      by (auto simp: connections_have_edges_def)
    with nj show "conn_targetNode (snd jd) \<in> set (neighborsOf ?T' (conn_sourceNode (snd jd)))
        \<and> conn_sourceNode (snd jd) \<in> set (neighborsOf ?T' (conn_targetNode (snd jd)))"
      unfolding N by (auto simp: joins_def)
  qed
  have 4: "edges_backed ?T'"
    unfolding edges_backed_iff
  proof (intro allI impI)
    fix a b assume ab: "b \<in> set (neighborsOf ?T' a)"
    then have "b \<in> set (neighborsOf T a)" unfolding N by (auto split: if_splits)
    with eb obtain ic where ic: "ic \<in> set (connections T)" "joins (snd ic) a b"
      unfolding edges_backed_iff by blast
    have "fst ic \<noteq> cid"
    proof
      assume "fst ic = cid"
      with ic(1) uniq [of "snd ic"] have "snd ic = c" by (cases ic) auto
      with ic(2) ab show False unfolding N by (auto simp: joins_def split: if_splits)
    qed
    with ic have "ic \<in> set (connections ?T')" by (simp add: C)
    with ic(2) show "\<exists>ic \<in> set (connections ?T'). joins (snd ic) a b" by blast
  qed
  have 5: "one_connection_per_pair ?T'"
    using op unfolding one_connection_per_pair_def C by blast
  from 1 2 3 4 5 keys_distinct_removeConnection [OF kd] show ?thesis
    by (simp add: topology_inv_def claimed_invariants_def)
qed


lemma addNode_preserves:
  assumes "topology_inv T" and iso: "neighborsOf T (node_name n) = []"
  shows "topology_inv (addNode T n)"
proof -
  let ?T' = "addNode T n"
  have N: "\<And>x. neighborsOf ?T' x = neighborsOf T x"
    using iso by (simp add: addNode_def neighborsOf_def AList.update_conv')
  have K: "fst ` set (topologyGraph ?T') = insert (node_name n) (fst ` set (topologyGraph T))"
    "fst ` set (nodes ?T') = insert (node_name n) (fst ` set (nodes T))"
    "connections ?T' = connections T"
    by (simp_all add: addNode_def AList.dom_update)
  from assms have kd: "keys_distinct T" and sym: "graph_symmetric T" and live: "names_are_live T"
    and ce: "connections_have_edges T" and eb: "edges_backed T" and op: "one_connection_per_pair T"
    by (auto simp: topology_inv_def claimed_invariants_def)
  have 0: "keys_distinct ?T'"
    using kd by (simp add: keys_distinct_def addNode_def AList.distinct_update)
  have 1: "graph_symmetric ?T'" using sym unfolding graph_symmetric_iff N .
  have 2: "names_are_live ?T'" using live unfolding names_are_live_iff N K by auto
  have 3: "connections_have_edges ?T'" using ce unfolding connections_have_edges_def N K .
  have 4: "edges_backed ?T'" using eb unfolding edges_backed_iff N K .
  have 5: "one_connection_per_pair ?T'" using op unfolding one_connection_per_pair_def K .
  from 0 1 2 3 4 5 show ?thesis by (simp add: topology_inv_def claimed_invariants_def)
qed

lemma update_fresh: "k \<notin> fst ` set al \<Longrightarrow> AList.update k v al = al @ [(k, v)]"
  by (induction al) auto

lemma getConnection_None_iff:
  "getConnection T a b = None \<longleftrightarrow> (\<forall>ic \<in> set (connections T). \<not> joins (snd ic) a b)"
  by (auto simp add: getConnection_def find_None_iff joins_def)

lemma set_neighborsOf_addConnection:
  "map_of reg (conn_sourceNode c) \<noteq> None \<Longrightarrow> map_of reg (conn_targetNode c) \<noteq> None \<Longrightarrow>
   set (neighborsOf (addConnection reg T c) x) =
     set (neighborsOf T x)
       \<union> (if x = conn_sourceNode c then {conn_targetNode c} else {})
       \<union> (if x = conn_targetNode c then {conn_sourceNode c} else {})"
  by (auto simp add: neighborsOf_addConnection set_add_def)

lemma keys_graph_ensure: "fst ` set (graph_ensure k g) = insert k (fst ` set g)"
  by (auto simp add: graph_ensure_def AList.dom_update dest: map_of_SomeD
      intro: rev_image_eqI)

lemma distinct_graph_ensure: "distinct (map fst g) \<Longrightarrow> distinct (map fst (graph_ensure k g))"
  by (simp add: graph_ensure_def AList.distinct_update)

lemma keys_addConnection:
  "map_of reg (conn_sourceNode c) \<noteq> None \<Longrightarrow> map_of reg (conn_targetNode c) \<noteq> None \<Longrightarrow>
   fst ` set (topologyGraph (addConnection reg T c)) =
     insert (conn_sourceNode c) (insert (conn_targetNode c) (fst ` set (topologyGraph T)))"
  by (auto simp add: addConnection_def Let_def AList.dom_map_entry keys_graph_ensure)

lemma addConnection_preserves:
  assumes "topology_inv T"
    and reg: "map_of reg (conn_sourceNode c) \<noteq> None" "map_of reg (conn_targetNode c) \<noteq> None"
    and known: "conn_sourceNode c \<in> fst ` set (nodes T)" "conn_targetNode c \<in> fst ` set (nodes T)"
    and fresh: "conn_id c \<notin> fst ` set (connections T)"
    and unjoined: "getConnection T (conn_sourceNode c) (conn_targetNode c) = None"
  shows "topology_inv (addConnection reg T c)"
proof -
  let ?T' = "addConnection reg T c"
  note N = set_neighborsOf_addConnection [OF reg]
  note K = keys_addConnection [OF reg]
  have C: "set (connections ?T') = insert (conn_id c, c) (set (connections T))"
    using fresh by (simp add: addConnection_def Let_def update_fresh)
  have Nd: "nodes ?T' = nodes T" by (simp add: addConnection_def Let_def)
  from assms(1) have kd: "keys_distinct T" and sym: "graph_symmetric T" and live: "names_are_live T"
    and ce: "connections_have_edges T" and eb: "edges_backed T" and op: "one_connection_per_pair T"
    by (auto simp: topology_inv_def claimed_invariants_def)
  have 0: "keys_distinct ?T'"
    using kd reg by (simp add: keys_distinct_def addConnection_def Let_def AList.distinct_update
        AList.distinct_map_entry distinct_graph_ensure)
  have 1: "graph_symmetric ?T'"
    using sym unfolding graph_symmetric_iff N by (auto split: if_splits)
  have 2: "names_are_live ?T'"
    using live known unfolding names_are_live_iff N K Nd by (auto split: if_splits)
  have 3: "connections_have_edges ?T'"
    using ce unfolding connections_have_edges_def N C by auto
  have 4: "edges_backed ?T'"
    unfolding edges_backed_iff
  proof (intro allI impI)
    fix a b assume "b \<in> set (neighborsOf ?T' a)"
    then consider "b \<in> set (neighborsOf T a)" | "joins c a b"
      unfolding N by (auto simp: joins_def split: if_splits)
    then show "\<exists>ic \<in> set (connections ?T'). joins (snd ic) a b"
    proof cases
      case 1
      with eb obtain ic where "ic \<in> set (connections T)" "joins (snd ic) a b"
        unfolding edges_backed_iff by blast
      then show ?thesis unfolding C by blast
    next
      case 2
      then show ?thesis unfolding C by auto
    qed
  qed
  have 5: "one_connection_per_pair ?T'"
    using op unjoined fresh unfolding one_connection_per_pair_def C getConnection_None_iff
    by (auto simp: joins_def)
  from 0 1 2 3 4 5 show ?thesis by (simp add: topology_inv_def claimed_invariants_def)
qed


lemma fold_removeConnection_preserves:
  "topology_inv T \<Longrightarrow> topology_inv (fold (\<lambda>cid T'. removeConnection T' cid) ids T)"
  by (induction ids arbitrary: T) (simp_all add: removeConnection_preserves)

lemma set_connections_fold_removeConnection:
  "set (connections (fold (\<lambda>cid T'. removeConnection T' cid) ids T)) =
     {ic \<in> set (connections T). fst ic \<notin> set ids}"
  by (induction ids arbitrary: T) (auto simp add: set_connections_removeConnection)

lemma keys_delete: "fst ` set (AList.delete k al) = fst ` set al - {k}"
  by (induction al) auto

lemma removeNode_preserves:
  assumes "topology_inv T"
  shows "topology_inv (removeNode T n)"
proof -
  define ids where "ids = map fst (filter (\<lambda>(_, c). touches (node_name n) c) (connections T))"
  define T1 where "T1 = fold (\<lambda>cid T'. removeConnection T' cid) ids T"
  let ?T' = "removeNode T n"
  have T': "?T' = T1\<lparr>nodes := AList.delete (node_name n) (nodes T1),
                      topologyGraph := AList.delete (node_name n) (topologyGraph T1)\<rparr>"
    by (simp add: removeNode_def ids_def T1_def Let_def)
  have inv1: "topology_inv T1"
    unfolding T1_def using assms by (rule fold_removeConnection_preserves)
  then have kd: "keys_distinct T1" and sym: "graph_symmetric T1" and live: "names_are_live T1"
    and ce: "connections_have_edges T1" and eb: "edges_backed T1" and op: "one_connection_per_pair T1"
    by (auto simp: topology_inv_def claimed_invariants_def)
  have untouched: "\<And>ic. ic \<in> set (connections T1) \<Longrightarrow> \<not> touches (node_name n) (snd ic)"
  proof
    fix ic assume ic: "ic \<in> set (connections T1)" and t: "touches (node_name n) (snd ic)"
    from ic have "ic \<in> set (connections T)" "fst ic \<notin> set ids"
      by (auto simp: T1_def set_connections_fold_removeConnection)
    moreover from \<open>ic \<in> set (connections T)\<close> t
    have "ic \<in> set (filter (\<lambda>(_, c). touches (node_name n) c) (connections T))"
      by (simp add: case_prod_beta)
    then have "fst ic \<in> set ids"
      unfolding ids_def by simp
    ultimately show False by simp
  qed
  have iso1: "neighborsOf T1 (node_name n) = []"
  proof (rule ccontr)
    assume "neighborsOf T1 (node_name n) \<noteq> []"
    then obtain b where "b \<in> set (neighborsOf T1 (node_name n))"
      by (cases "neighborsOf T1 (node_name n)") auto
    with eb obtain ic where "ic \<in> set (connections T1)" "joins (snd ic) (node_name n) b"
      unfolding edges_backed_iff by blast
    with untouched show False by (auto simp: joins_def touches_def)
  qed
  have iso2: "\<And>x. node_name n \<notin> set (neighborsOf T1 x)"
  proof
    fix x assume "node_name n \<in> set (neighborsOf T1 x)"
    with eb obtain ic where "ic \<in> set (connections T1)" "joins (snd ic) x (node_name n)"
      unfolding edges_backed_iff by blast
    with untouched show False by (auto simp: joins_def touches_def)
  qed
  have N: "\<And>x. neighborsOf ?T' x = neighborsOf T1 x"
    using iso1 by (simp add: T' neighborsOf_def AList.delete_conv')
  have K: "fst ` set (topologyGraph ?T') = fst ` set (topologyGraph T1) - {node_name n}"
    "fst ` set (nodes ?T') = fst ` set (nodes T1) - {node_name n}"
    "connections ?T' = connections T1"
    by (simp_all add: T' keys_delete)
  have 0: "keys_distinct ?T'"
    using kd by (simp add: keys_distinct_def T' AList.distinct_delete)
  have 1: "graph_symmetric ?T'" using sym unfolding graph_symmetric_iff N .
  have 2: "names_are_live ?T'"
    using live iso2 unfolding names_are_live_iff N K by auto
  have 3: "connections_have_edges ?T'" using ce unfolding connections_have_edges_def N K .
  have 4: "edges_backed ?T'" using eb unfolding edges_backed_iff N K .
  have 5: "one_connection_per_pair ?T'" using op unfolding one_connection_per_pair_def K .
  from 0 1 2 3 4 5 show ?thesis by (simp add: topology_inv_def claimed_invariants_def)
qed

subsection \<open>The distance matrix and the running maximum\<close>






definition square :: "nat \<Rightarrow> enat list list \<Rightarrow> bool" where
  "square n d = (length d = n \<and> (\<forall>r \<in> set d. length r = n))"

lemma square_row: "square n d \<Longrightarrow> i < n \<Longrightarrow> length (d ! i) = n"
  by (simp add: square_def)











subsection \<open>findIndex\<close>


lemma findIndex_finds: "x \<in> set xs \<Longrightarrow> p x \<Longrightarrow> \<exists>i. findIndex p xs = Some i"
  by (induction xs) auto

lemma findIndex_first:
  "i < length xs \<Longrightarrow> p (xs ! i) \<Longrightarrow> (\<forall>j < i. \<not> p (xs ! j)) \<Longrightarrow> findIndex p xs = Some i"
proof (induction xs arbitrary: i)
  case Nil
  then show ?case by simp
next
  case (Cons x xs)
  show ?case
  proof (cases i)
    case 0
    with Cons.prems show ?thesis by simp
  next
    case (Suc k)
    with Cons.prems have "\<not> p x" by auto
    moreover from Suc Cons.prems have "findIndex p xs = Some k"
      by (intro Cons.IH) auto
    ultimately show ?thesis using Suc by simp
  qed
qed


subsection \<open>floydWarshall computes the shortest distances\<close>





























subsection \<open>Every accepted envelope is accounted for\<close>














text \<open>
  The invariant behind the accounting is that every queued delivery task has a path of two
  names and no hop taken: intake creates no other task, because a longer path would have to
  come out of \<open>findShortestPath\<close> or, after it, of the fallback search, and
  \<open>findShortestPath\<close> does not return for registered nodes. The forwarding branch of
  \<open>processDeliveryTask\<close>, which advances the hop and does not queue the task again, is
  therefore never taken in a reachable state. On a task with a longer path it would run as
  follows.
\<close>

lemma forwarding_branch_does_not_requeue:
  "processDeliveryQueue chain_mesh
     (empty_router\<lparr>deliveryQueue :=
        [\<lparr>task_message = example_message ''a'' ''c'',
          routingPath = [JString ''a'', JString ''b'', JString ''c''],
          currentHop = 0, task_status = Pending\<rparr>],
        messagesRouted := 1\<rparr>)
   = Some \<lparr>messageQueue = [], deliveryQueue = [], failedMessages = [],
            messagesRouted = 1, messagesDelivered = 0, messagesFailed = 0,
            isInitialized = True\<rparr>"
  by (simp add: processDeliveryQueue_def processDeliveryTask_def empty_router_def chain_mesh_def
      array_get_def canRouteThroughNode_def nodes_get_def chain_registry_def example_node_def
      truthy_def key_getConnection_def getConnection_def chain_topology_eq forwardMessage_def
      Let_def)

subsection \<open>Claims\<close>



text \<open>
  C2 (findShortestPath terminates and returns the path, of length 2 for a direct edge).
  In the chain network \<open>a\<close> and \<open>b\<close> are registered and joined by a direct edge, and
  \<open>findShortestPath\<close> from \<open>a\<close> to \<open>b\<close> never returns: the walk back from the target
  reads \<open>undefined\<close> from the \<open>previous\<close> map and tests it against \<open>null\<close>.
\<close>

theorem findShortestPath_direct_edge_never_returns:
  "map_of chain_registry ''a'' \<noteq> None \<and> map_of chain_registry ''b'' \<noteq> None
   \<and> getConnection chain_topology ''a'' ''b'' \<noteq> None
   \<and> ''b'' \<in> set (neighborsOf chain_topology ''a'')
   \<and> findShortestPath chain_registry chain_topology ''a'' ''b'' = None"
proof -
  have "findShortestPath chain_registry chain_topology ''a'' ''b'' = None"
    by (rule findShortestPath_registered_diverges [where na = "example_node ''a''"
          and nb = "example_node ''b''"])
       (simp_all add: chain_registry_def)
  then show ?thesis
    by (simp add: chain_registry_def chain_topology_eq getConnection_def neighborsOf_def)
qed

text \<open>
  C3, as the code has it. A message whose target is not in the registry when intake
  processes it fails at once with the target-not-found error and puts nothing into the
  delivery queue. The failure is handled like every other intake failure: it counts as
  one routing attempt, the message goes back to the end of the intake queue while its
  count is below \<open>maxRoutingAttempts\<close>, and on the attempt that reaches the cap it is
  archived and \<open>messagesFailed\<close> goes up by one.
\<close>

theorem unknown_target_fails_and_retries_up_to_cap:
  assumes "map_of (mesh_nodes M) (msg_targetNode m) = None"
  shows "processMessage M r m = Some (Inl (TargetNodeNotFound (JString (msg_targetNode m))))
    \<and> processMessages M [m] r =
        Some (handleMessageFailure r m (TargetNodeNotFound (JString (msg_targetNode m))))
    \<and> deliveryQueue (handleMessageFailure r m (TargetNodeNotFound (JString (msg_targetNode m))))
        = deliveryQueue r
    \<and> handleMessageFailure r m (TargetNodeNotFound (JString (msg_targetNode m))) =
        (if routingAttempts m + 1 < maxRoutingAttempts m
         then r\<lparr>messageQueue := messageQueue r @ [m\<lparr>routingAttempts := routingAttempts m + 1\<rparr>]\<rparr>
         else r\<lparr>failedMessages := failedMessages r @
                    [\<lparr>failed_message = m\<lparr>routingAttempts := routingAttempts m + 1\<rparr>,
                      failure_error = TargetNodeNotFound (JString (msg_targetNode m)),
                      failure_routingPath = None\<rparr>],
                messagesFailed := messagesFailed r + 1\<rparr>)"
  using assms by (simp add: processMessage_def handleMessageFailure_def Let_def)

theorem unknown_target_fails_and_retries_up_to_cap_witness:
  "map_of (mesh_nodes chain_mesh) (msg_targetNode (example_message ''a'' ''zz'')) = None
   \<and> processMessage chain_mesh empty_router (example_message ''a'' ''zz'')
       = Some (Inl (TargetNodeNotFound (JString ''zz'')))
   \<and> processMessages chain_mesh [example_message ''a'' ''zz''] empty_router
       = Some (empty_router\<lparr>messageQueue :=
                 [(example_message ''a'' ''zz'')\<lparr>routingAttempts := 1\<rparr>]\<rparr>)"
proof -
  have h: "map_of (mesh_nodes chain_mesh) (msg_targetNode (example_message ''a'' ''zz'')) = None"
    by (simp add: chain_mesh_def chain_registry_def example_message_def)
  show ?thesis
    using h unknown_target_fails_and_retries_up_to_cap [OF h, of empty_router]
    by (simp add: example_message_def empty_router_def)
qed

text \<open>
  The claim as the specification words it (not retried, not re-enqueued) fails: in the
  chain network a routed message for the unknown node \<open>zz\<close> is back in the intake queue
  after one run of \<open>processMessageQueue\<close>, with one attempt counted.
\<close>

theorem unknown_target_is_requeued:
  "map_of (mesh_nodes chain_mesh) ''zz'' = None
   \<and> routeMessage empty_router (example_message ''a'' ''zz'')
       = Inr (empty_router\<lparr>messageQueue := [example_message ''a'' ''zz''], messagesRouted := 1\<rparr>)
   \<and> processMessageQueue chain_mesh
         (empty_router\<lparr>messageQueue := [example_message ''a'' ''zz''], messagesRouted := 1\<rparr>)
       = Some (empty_router\<lparr>messageQueue :=
                 [(example_message ''a'' ''zz'')\<lparr>routingAttempts := 1\<rparr>],
               messagesRouted := 1\<rparr>)"
  by (simp add: routeMessage_def processMessageQueue_def processMessage_def
      handleMessageFailure_def chain_mesh_def chain_registry_def example_message_def
      empty_router_def Let_def)

text \<open>
  C4 (a capability query admits a node only if the queried capability is present and true,
  or a string-valued capability contains the queried string). The node \<open>a\<close> of the chain
  network has the single capability \<open>routing: true\<close>. A query for the capability
  \<open>gateway\<close> matches it, although the node has no \<open>gateway\<close> capability and no
  string-valued capability at all: the test accepts any capability whose value is \<open>true\<close>
  and never looks at its name.
\<close>

theorem capability_query_matches_any_true_flag:
  "capabilities (example_node ''a'') = [(''routing'', CapBool True)]
   \<and> nodeMatchesQuery (example_node ''a'')
        \<lparr>query_name = None, query_type = None, query_capability = Some ''gateway'',
         query_status = None, query_minTrustScore = None\<rparr>
   \<and> \<not> capability_present_and_true_or_contained (example_node ''a'') ''gateway''"
  by (simp add: nodeMatchesQuery_def hasCapability_def given_def example_node_def
      capability_present_and_true_or_contained_def)

text \<open>
  C5, as the code has it. The three invariants of the data model (symmetric adjacency, every
  name in the adjacency map a key of the node map, every stored connection with its two
  edges) are not preserved alone; they are preserved together with three more: the keys of
  each map are distinct, every edge is backed by a stored connection, and no two stored
  connections join the same pair. From a topology with all six, \<open>removeNode\<close> and
  \<open>removeConnection\<close> keep them for every argument; \<open>addNode\<close> keeps them when the name has
  no neighbours yet; \<open>addConnection\<close> keeps them when both endpoints are in the registry and
  in the manager's node map, the connection id is new, and no stored connection joins the
  endpoints already.
\<close>

theorem topology_mutations_preserve_invariants:
  assumes "topology_inv T"
  shows "claimed_invariants T
    \<and> (neighborsOf T (node_name n) = [] \<longrightarrow> topology_inv (addNode T n))
    \<and> topology_inv (removeNode T n')
    \<and> (map_of reg (conn_sourceNode c) \<noteq> None \<and> map_of reg (conn_targetNode c) \<noteq> None
        \<and> conn_sourceNode c \<in> fst ` set (nodes T) \<and> conn_targetNode c \<in> fst ` set (nodes T)
        \<and> conn_id c \<notin> fst ` set (connections T)
        \<and> getConnection T (conn_sourceNode c) (conn_targetNode c) = None
       \<longrightarrow> topology_inv (addConnection reg T c))
    \<and> topology_inv (removeConnection T cid)"
  using assms addNode_preserves [OF assms] removeNode_preserves [OF assms]
    addConnection_preserves [OF assms] removeConnection_preserves [OF assms]
  by (simp add: topology_inv_def)

theorem topology_mutations_preserve_invariants_witness:
  "topology_inv two_node_topology
   \<and> neighborsOf two_node_topology ''c'' = []
   \<and> getConnection two_node_topology ''a'' ''b'' = None
   \<and> topology_inv (addNode two_node_topology (example_node ''c''))
   \<and> topology_inv (removeNode two_node_topology (example_node ''a''))
   \<and> topology_inv (addConnection chain_registry two_node_topology (example_connection ''c1'' ''a'' ''b''))
   \<and> topology_inv (removeConnection two_node_topology ''c1'')"
proof -
  have h: "topology_inv two_node_topology"
    by (simp add: two_node_topology_eq topology_inv_def keys_distinct_def claimed_invariants_def
        graph_symmetric_def names_are_live_def connections_have_edges_def edges_backed_def
        one_connection_per_pair_def neighborsOf_def)
  show ?thesis
    using h topology_mutations_preserve_invariants [OF h, of "example_node ''c''" "example_node ''a''"
        chain_registry "example_connection ''c1'' ''a'' ''b''" "''c1''"]
    by (simp add: two_node_topology_eq neighborsOf_def getConnection_def chain_registry_def
        example_connection_def example_node_def)
qed

text \<open>
  The three invariants alone are not preserved: with two stored connections between \<open>a\<close>
  and \<open>b\<close> they hold, and removing one of the two deletes the edge that the other still
  needs.
\<close>

theorem removing_one_of_two_connections_breaks_invariant:
  "claimed_invariants doubled_topology
   \<and> \<not> claimed_invariants (removeConnection doubled_topology ''c9'')"
  by (simp add: doubled_topology_eq claimed_invariants_def graph_symmetric_def names_are_live_def
      connections_have_edges_def neighborsOf_def removeConnection_def Let_def)




text \<open>
  C8, as the code has it. Every message that \<open>routeMessage\<close> accepts starts with 0
  attempts and a cap of 3. With that cap, a failure at intake or at delivery counts one
  attempt; the first and the second failure put the message back at the end of the queue
  of the stage that failed, and the third appends exactly one entry to the failed archive
  and adds exactly 1 to \<open>messagesFailed\<close>. For an archived failure that no earlier archive
  entry shares its message id with, \<open>retryFailedMessage\<close> with that id succeeds, removes
  exactly that entry and appends its message to the intake queue with 0 attempts.
\<close>

theorem bounded_retry_then_archive_then_resubmit:
  "(isInitialized r \<longrightarrow>
      routeMessage r m = Inr (r\<lparr>messageQueue := messageQueue r @
                                    [m\<lparr>routingAttempts := 0, maxRoutingAttempts := 3\<rparr>],
                                 messagesRouted := messagesRouted r + 1\<rparr>))
   \<and> (maxRoutingAttempts m = 3 \<longrightarrow>
      handleMessageFailure r m e =
        (if routingAttempts m < 2
         then r\<lparr>messageQueue := messageQueue r @ [m\<lparr>routingAttempts := routingAttempts m + 1\<rparr>]\<rparr>
         else r\<lparr>failedMessages := failedMessages r @
                    [\<lparr>failed_message = m\<lparr>routingAttempts := routingAttempts m + 1\<rparr>,
                      failure_error = e, failure_routingPath = None\<rparr>],
                messagesFailed := messagesFailed r + 1\<rparr>))
   \<and> (maxRoutingAttempts (task_message t) = 3 \<longrightarrow>
      handleDeliveryFailure r t e =
        (if routingAttempts (task_message t) < 2
         then r\<lparr>deliveryQueue := deliveryQueue r @
                    [t\<lparr>task_message := (task_message t)
                          \<lparr>routingAttempts := routingAttempts (task_message t) + 1\<rparr>,
                       task_status := Pending\<rparr>]\<rparr>
         else r\<lparr>failedMessages := failedMessages r @
                    [\<lparr>failed_message = (task_message t)
                          \<lparr>routingAttempts := routingAttempts (task_message t) + 1\<rparr>,
                      failure_error = e, failure_routingPath = Some (routingPath t)\<rparr>],
                messagesFailed := messagesFailed r + 1\<rparr>))
   \<and> (i < length (failedMessages r)
        \<and> (\<forall>j < i. msg_id (failed_message (failedMessages r ! j))
                      \<noteq> msg_id (failed_message (failedMessages r ! i)))
      \<longrightarrow> retryFailedMessage r (msg_id (failed_message (failedMessages r ! i))) =
            Inr (r\<lparr>failedMessages := take i (failedMessages r) @ drop (Suc i) (failedMessages r),
                   messageQueue := messageQueue r @
                     [(failed_message (failedMessages r ! i))\<lparr>routingAttempts := 0\<rparr>]\<rparr>))"
proof (intro conjI impI)
  assume a: "i < length (failedMessages r)
        \<and> (\<forall>j < i. msg_id (failed_message (failedMessages r ! j))
                      \<noteq> msg_id (failed_message (failedMessages r ! i)))"
  then have "findIndex (\<lambda>g. msg_id (failed_message g) = msg_id (failed_message (failedMessages r ! i)))
      (failedMessages r) = Some i"
    by (intro findIndex_first) auto
  then show "retryFailedMessage r (msg_id (failed_message (failedMessages r ! i))) =
            Inr (r\<lparr>failedMessages := take i (failedMessages r) @ drop (Suc i) (failedMessages r),
                   messageQueue := messageQueue r @
                     [(failed_message (failedMessages r ! i))\<lparr>routingAttempts := 0\<rparr>]\<rparr>)"
    by (simp add: retryFailedMessage_def)
qed (auto simp: routeMessage_def handleMessageFailure_def handleDeliveryFailure_def Let_def)

theorem bounded_retry_then_archive_then_resubmit_witness:
  "isInitialized archived_router
   \<and> maxRoutingAttempts ((example_message ''a'' ''c'')\<lparr>routingAttempts := 2\<rparr>) = 3
   \<and> (0::nat) < length (failedMessages archived_router)
   \<and> messagesFailed (handleMessageFailure archived_router
         ((example_message ''a'' ''c'')\<lparr>routingAttempts := 2\<rparr>) NoValidRoutingPath) = 2
   \<and> length (failedMessages (handleMessageFailure archived_router
         ((example_message ''a'' ''c'')\<lparr>routingAttempts := 2\<rparr>) NoValidRoutingPath)) = 2
   \<and> retryFailedMessage archived_router ''m1'' =
       Inr (archived_router\<lparr>failedMessages := [],
              messageQueue := [example_message ''a'' ''zz'']\<rparr>)"
  using bounded_retry_then_archive_then_resubmit
    [of archived_router "(example_message ''a'' ''c'')\<lparr>routingAttempts := 2\<rparr>" NoValidRoutingPath
      "\<lparr>task_message = (example_message ''a'' ''c'')\<lparr>routingAttempts := 2\<rparr>,
        routingPath = [JString ''a'', JString ''c''], currentHop = 0, task_status = Pending\<rparr>"
      0]
  by (simp add: archived_router_def example_message_def empty_router_def)

text \<open>
  The claim for every archived message fails. \<open>routeMessage\<close> accepts two messages with
  the same id; after three runs of \<open>processMessageQueue\<close> both are archived, and
  \<open>retryFailedMessage\<close> with the id of the second one removes and re-queues the first:
  the second stays in the archive.
\<close>

theorem retry_by_id_takes_the_first_of_two_archived_messages:
  "routeMessage empty_router (example_message ''a'' ''zz'')
     = Inr (empty_router\<lparr>messageQueue := [example_message ''a'' ''zz''], messagesRouted := 1\<rparr>)
   \<and> routeMessage
         (empty_router\<lparr>messageQueue := [example_message ''a'' ''zz''], messagesRouted := 1\<rparr>)
         (example_message ''a'' ''yy'')
     = Inr (empty_router\<lparr>messageQueue := [example_message ''a'' ''zz'', example_message ''a'' ''yy''],
              messagesRouted := 2\<rparr>)
   \<and> Option.bind (Option.bind (processMessageQueue chain_mesh
       (empty_router\<lparr>messageQueue := [example_message ''a'' ''zz'', example_message ''a'' ''yy''],
          messagesRouted := 2\<rparr>))
     (processMessageQueue chain_mesh)) (processMessageQueue chain_mesh)
     = Some duplicate_archive_router
   \<and> failed_message (failedMessages duplicate_archive_router ! 1)
       = (example_message ''a'' ''yy'')\<lparr>routingAttempts := 3\<rparr>
   \<and> retryFailedMessage duplicate_archive_router
         (msg_id (failed_message (failedMessages duplicate_archive_router ! 1)))
       = Inr (duplicate_archive_router\<lparr>failedMessages :=
                 [\<lparr>failed_message = (example_message ''a'' ''yy'')\<lparr>routingAttempts := 3\<rparr>,
                   failure_error = TargetNodeNotFound (JString ''yy''),
                   failure_routingPath = None\<rparr>],
               messageQueue := [example_message ''a'' ''zz'']\<rparr>)"
  by (simp add: routeMessage_def processMessageQueue_def processMessage_def handleMessageFailure_def
      retryFailedMessage_def duplicate_archive_router_def chain_mesh_def chain_registry_def
      example_message_def empty_router_def Let_def)

text \<open>
  C9, as the code has it. For two registered nodes that are not adjacent yet, \<open>addConnection\<close>
  followed by \<open>removeConnection\<close> of the same connection leaves every node's neighbours as
  they were. Removing a connection id that is not stored changes nothing, and removing a
  connection twice is the same as removing it once. Removing a node that is in neither map
  and that no stored connection names changes nothing.
\<close>

theorem add_then_remove_connection_restores_neighbors:
  "(map_of reg (conn_sourceNode c) \<noteq> None \<and> map_of reg (conn_targetNode c) \<noteq> None
      \<and> conn_targetNode c \<notin> set (neighborsOf T (conn_sourceNode c))
      \<and> conn_sourceNode c \<notin> set (neighborsOf T (conn_targetNode c))
    \<longrightarrow> neighborsOf (removeConnection (addConnection reg T c) (conn_id c)) x = neighborsOf T x)
   \<and> (map_of (connections T) cid = None \<longrightarrow> removeConnection T cid = T)
   \<and> removeConnection (removeConnection T cid) cid = removeConnection T cid
   \<and> (node_name n \<notin> fst ` set (nodes T) \<and> node_name n \<notin> fst ` set (topologyGraph T)
        \<and> (\<forall>ic \<in> set (connections T). \<not> touches (node_name n) (snd ic))
      \<longrightarrow> removeNode T n = T)"
proof (intro conjI impI)
  assume a: "map_of reg (conn_sourceNode c) \<noteq> None \<and> map_of reg (conn_targetNode c) \<noteq> None
      \<and> conn_targetNode c \<notin> set (neighborsOf T (conn_sourceNode c))
      \<and> conn_sourceNode c \<notin> set (neighborsOf T (conn_targetNode c))"
  then show "neighborsOf (removeConnection (addConnection reg T c) (conn_id c)) x = neighborsOf T x"
    by (auto simp add: neighborsOf_removeConnection [OF connections_addConnection]
        neighborsOf_addConnection set_add_def)
next
  assume "map_of (connections T) cid = None"
  then show "removeConnection T cid = T" by (simp add: removeConnection_def)
next
  show "removeConnection (removeConnection T cid) cid = removeConnection T cid"
    by (cases "map_of (connections T) cid")
       (simp_all add: removeConnection_def Let_def AList.delete_conv')
next
  assume a: "node_name n \<notin> fst ` set (nodes T) \<and> node_name n \<notin> fst ` set (topologyGraph T)
        \<and> (\<forall>ic \<in> set (connections T). \<not> touches (node_name n) (snd ic))"
  then have "filter (\<lambda>(_, c). touches (node_name n) c) (connections T) = []"
    by (auto simp: filter_empty_conv)
  with a show "removeNode T n = T"
    by (simp add: removeNode_def Let_def)
qed

theorem add_then_remove_connection_restores_neighbors_witness:
  "map_of chain_registry ''a'' \<noteq> None \<and> map_of chain_registry ''c'' \<noteq> None
   \<and> ''c'' \<notin> set (neighborsOf chain_topology ''a'')
   \<and> ''a'' \<notin> set (neighborsOf chain_topology ''c'')
   \<and> map_of (connections chain_topology) ''c7'' = None
   \<and> neighborsOf (removeConnection
         (addConnection chain_registry chain_topology (example_connection ''c3'' ''a'' ''c''))
         ''c3'') ''a'' = [''b'']
   \<and> removeConnection chain_topology ''c7'' = chain_topology
   \<and> removeNode chain_topology (example_node ''z'') = chain_topology"
  using add_then_remove_connection_restores_neighbors
    [of chain_registry "example_connection ''c3'' ''a'' ''c''" chain_topology "''a''" "''c7''"
      "example_node ''z''"]
  by (simp add: chain_registry_def chain_topology_eq neighborsOf_def example_connection_def
      example_node_def touches_def)

text \<open>
  The round trip as the specification words it, for every prior state, fails when the two
  nodes are adjacent already: in the chain, adding a second connection between \<open>a\<close> and
  \<open>b\<close> and removing it again leaves \<open>a\<close> without the neighbour \<open>b\<close> it had before.
\<close>

theorem readding_an_existing_edge_then_removing_it_loses_the_edge:
  "map_of chain_registry ''a'' \<noteq> None \<and> map_of chain_registry ''b'' \<noteq> None
   \<and> neighborsOf chain_topology ''a'' = [''b'']
   \<and> neighborsOf chain_topology ''b'' = [''a'', ''c'']
   \<and> neighborsOf (removeConnection
         (addConnection chain_registry chain_topology (example_connection ''c9'' ''a'' ''b''))
         ''c9'') ''a'' = []
   \<and> neighborsOf (removeConnection
         (addConnection chain_registry chain_topology (example_connection ''c9'' ''a'' ''b''))
         ''c9'') ''b'' = [''c'']"
  by (simp add: chain_topology_eq chain_registry_def neighborsOf_def addConnection_def
      removeConnection_def example_connection_def graph_ensure_def set_add_def Let_def)

text \<open>
  C10. Whatever the archive holds and whatever the failure counter says,
  \<open>clearFailedMessages\<close> leaves the archive empty and the \<open>messagesFailed\<close> statistic at 0,
  returns the number of archived failures it removed, and touches nothing else.
\<close>

theorem clearFailedMessages_resets:
  "failedMessages (snd (clearFailedMessages r)) = []
   \<and> messagesFailed (snd (clearFailedMessages r)) = 0
   \<and> fst (clearFailedMessages r) = length (failedMessages r)
   \<and> messageQueue (snd (clearFailedMessages r)) = messageQueue r
   \<and> deliveryQueue (snd (clearFailedMessages r)) = deliveryQueue r
   \<and> messagesRouted (snd (clearFailedMessages r)) = messagesRouted r
   \<and> messagesDelivered (snd (clearFailedMessages r)) = messagesDelivered r"
  by (simp add: clearFailedMessages_def)

end
